theory Spec2Isabelle
  imports Complex_Main
begin

section \<open>The factorization engine of \<^verbatim>\<open>methods/factorization/nmf.py\<close>\<close>

text \<open>
  The class \<^verbatim>\<open>Nmf\<close> is embedded function by function. Matrices are lists of rows.
  Python exceptions are values of \<open>error\<close>; a method that mutates \<^verbatim>\<open>self\<close> takes
  the object's state and returns the outcome together with the state the object is left
  in (an exception does not undo earlier assignments).
\<close>

subsection \<open>Errors and matrices\<close>

datatype error =
    AttributeError string \<comment> \<open>the name of the attribute that was not found\<close>
  | UnboundLocalError string \<comment> \<open>the local variable read before any assignment\<close>
  | CallbackError \<comment> \<open>whatever the completion callback raises\<close>

type_synonym 'a matrix = "'a list list"

text \<open>\<^verbatim>\<open>X.shape[0]\<close> and \<^verbatim>\<open>X.shape[1]\<close>. A list of rows cannot record the width of a
  matrix without rows; every matrix of the engine has at least one row.\<close>

definition nrows :: "'a matrix \<Rightarrow> nat" where
  "nrows X = length X"

definition ncols :: "'a matrix \<Rightarrow> nat" where
  "ncols X = (case X of [] \<Rightarrow> 0 | r # _ \<Rightarrow> length r)"

text \<open>The shape predicate used in the statements: \<open>m\<close> rows, each of length \<open>n\<close>.\<close>

definition mat :: "nat \<Rightarrow> nat \<Rightarrow> 'a matrix \<Rightarrow> bool" where
  "mat m n X = (length X = m \<and> list_all (\<lambda>r. length r = n) X)"

subsection \<open>The linear-algebra backend\<close>

text \<open>
  Modelled from the spec: the module \<^verbatim>\<open>utils.linalg\<close> (\<^verbatim>\<open>dot\<close>, \<^verbatim>\<open>multiply\<close>, \<^verbatim>\<open>elop\<close>,
  \<^verbatim>\<open>sop\<close>, \<^verbatim>\<open>max\<close>, \<^verbatim>\<open>argmax\<close>, \<^verbatim>\<open>repmat\<close>) is not among the source files. The
  specification lists its operations: matrix multiply, elementwise binary operation on
  operands of one shape, elementwise scalar operation, row and column sums, argmax along
  an axis returning values and indices, and the sum of all elements. The functions below
  are these operations on operands of fitting shapes; what the backend does with operands
  that do not fit is outside the model, and every statement fixes the shapes.
\<close>

definition T :: "'a matrix \<Rightarrow> 'a matrix" where
  \<comment> \<open>\<^verbatim>\<open>X.T\<close>\<close>
  "T X = map (\<lambda>j. map (\<lambda>r. r ! j) X) [0..<ncols X]"

definition dot :: "'a::semiring_0 matrix \<Rightarrow> 'a matrix \<Rightarrow> 'a matrix" where
  "dot A B = map (\<lambda>r. map (\<lambda>c. sum_list (map2 (*) r c)) (T B)) A"

definition elop :: "'a matrix \<Rightarrow> 'b matrix \<Rightarrow> ('a \<Rightarrow> 'b \<Rightarrow> 'c) \<Rightarrow> 'c matrix" where
  "elop A B f = map2 (map2 f) A B"

definition multiply :: "'a::times matrix \<Rightarrow> 'a matrix \<Rightarrow> 'a matrix" where
  "multiply A B = map2 (map2 (*)) A B"

definition sop :: "'a matrix \<Rightarrow> ('a \<Rightarrow> 'b) \<Rightarrow> 'b matrix" where
  \<comment> \<open>\<^verbatim>\<open>sop(X, s, op)\<close> with the scalar already given to the operation\<close>
  "sop X f = map (map f) X"

definition max_scalar :: "'a::ord matrix \<Rightarrow> 'a \<Rightarrow> 'a matrix" where
  \<comment> \<open>the backend's \<^verbatim>\<open>max(X, s)\<close>: elementwise maximum with a scalar\<close>
  "max_scalar X e = map (map (\<lambda>x. max x e)) X"

definition sum_axis0 :: "'a::monoid_add matrix \<Rightarrow> 'a matrix" where
  \<comment> \<open>\<^verbatim>\<open>X.sum(0)\<close>: the column sums, as a matrix of one row\<close>
  "sum_axis0 X = [map (\<lambda>j. sum_list (map (\<lambda>r. r ! j) X)) [0..<ncols X]]"

definition sum_axis1 :: "'a::monoid_add matrix \<Rightarrow> 'a matrix" where
  \<comment> \<open>\<^verbatim>\<open>X.sum(1)\<close>: the row sums, as a matrix of one column\<close>
  "sum_axis1 X = map (\<lambda>r. [sum_list r]) X"

definition sum_all :: "'a::monoid_add matrix \<Rightarrow> 'a" where
  \<comment> \<open>\<^verbatim>\<open>X.sum()\<close>\<close>
  "sum_all X = sum_list (map sum_list X)"

definition repmat :: "'a matrix \<Rightarrow> nat \<Rightarrow> nat \<Rightarrow> 'a matrix" where
  \<comment> \<open>\<^verbatim>\<open>repmat(X, a, b)\<close>: \<open>a\<close> copies of \<open>X\<close> downwards, \<open>b\<close> copies across\<close>
  "repmat X a b = concat (replicate a (map (\<lambda>r. concat (replicate b r)) X))"

text \<open>The index of the first greatest element of a column.\<close>

fun argmax_list :: "'a::linorder list \<Rightarrow> nat" where
  "argmax_list [] = 0"
| "argmax_list (x # xs) = (if list_all (\<lambda>y. y \<le> x) xs then 0 else Suc (argmax_list xs))"

definition argmax :: "'a::linorder matrix \<Rightarrow> 'a matrix \<times> nat matrix" where
  \<comment> \<open>\<^verbatim>\<open>argmax(X, axis = 0)\<close>: per column the greatest value and its row, each as one row\<close>
  "argmax X = ([map (\<lambda>c. c ! argmax_list c) (T X)], [map argmax_list (T X)])"

definition ones_like :: "bool matrix \<Rightarrow> bool matrix" where
  \<comment> \<open>\<^verbatim>\<open>np.ones_like(X)\<close> for a matrix of truth values: the shape of \<open>X\<close>, every entry true\<close>
  "ones_like X = map (map (\<lambda>_. True)) X"

text \<open>
  The scalar operations \<^verbatim>\<open>div\<close> and \<^verbatim>\<open>log\<close> that the source hands to \<^verbatim>\<open>elop\<close> and
  \<^verbatim>\<open>sop\<close>, and \<^verbatim>\<open>np.finfo(dtype).eps\<close>, are parameters: floating-point division and
  logarithm are not those of a field.
\<close>

record 'a numeric =
  eps :: 'a
  op_div :: "'a \<Rightarrow> 'a \<Rightarrow> 'a"
  op_log :: "'a \<Rightarrow> 'a"

subsection \<open>The state of the engine\<close>

text \<open>
  Modelled from the spec: the tracker \<^verbatim>\<open>mf_track.Mf_track\<close> is not among the source files;
  it accepts a residual or a pair of factor copies per call and owns its storage.
\<close>

record 'a mf_track =
  errors :: "'a list"
  factors :: "('a matrix \<times> 'a matrix) list"

text \<open>
  The attributes that the methods of \<^verbatim>\<open>Nmf\<close> assign. \<^verbatim>\<open>cons\<close> and \<^verbatim>\<open>consold\<close> exist on the
  object only once \<^verbatim>\<open>conn_objective\<close> has assigned them: \<open>None\<close> is an absent attribute
  (what \<^verbatim>\<open>hasattr\<close> tests). \<^verbatim>\<open>tracker\<close> is \<open>None\<close> when it holds Python's \<^verbatim>\<open>None\<close>.
\<close>

record 'a nmf =
  V :: "'a matrix"
  W :: "'a matrix"
  H :: "'a matrix"
  cons :: "bool matrix option"
  consold :: "bool matrix option"
  track_factor :: bool
  track_error :: bool
  tracker :: "'a mf_track option"
  n_iter :: "int option"
  final_obj :: "'a option"

subsection \<open>Inherited attributes\<close>

text \<open>
  The attributes of \<^verbatim>\<open>self\<close> that the constructor of the base class sets and this file
  only reads. \<^verbatim>\<open>None\<close> is \<open>None\<close>. The three that \<^verbatim>\<open>_is_satisfied\<close> reads come first.
\<close>

record 'a stopping =
  test_conv :: "int option"
  max_iter :: "int option"
  min_residuals :: "'a option"

text \<open>
  The entries of \<^verbatim>\<open>self.options\<close> that \<^verbatim>\<open>_set_params\<close> looks up are optional fields:
  \<open>None\<close> is an absent key. The seeding method \<^verbatim>\<open>self.seed.initialize\<close>, the callback
  and \<^verbatim>\<open>self.residuals\<close> are code outside the source files, so they are parameters.
  Seeding may be random: it is given the number of the run. A callback may raise.
\<close>

record 'a params = "'a stopping" +
  options_update :: "string option"
  options_objective :: "string option"
  options_track_factor :: "bool option"
  options_track_error :: "bool option"
  n_run :: nat
  rank :: nat
  seed_initialize :: "nat \<Rightarrow> 'a matrix \<Rightarrow> nat \<Rightarrow> 'a matrix \<times> 'a matrix"
  callback :: "('a nmf \<Rightarrow> error option) option"
  residuals :: "'a nmf \<Rightarrow> 'a"

subsection \<open>The stopping criteria\<close>

text \<open>
  \<^verbatim>\<open>_is_satisfied\<close>, lines 92 to 100. Python's \<^verbatim>\<open>x and e\<close> does not evaluate \<^verbatim>\<open>e\<close> when
  \<^verbatim>\<open>x\<close> is \<^verbatim>\<open>None\<close> or zero. \<^verbatim>\<open>%\<close> on integers takes the sign of the divisor, as
  \<open>mod\<close> on \<open>int\<close> does. The objective values are of any type with a zero, a
  subtraction and an order: no law of arithmetic is used.
\<close>

definition is_satisfied ::
  "('a::{zero,minus,ord}, 'z) stopping_scheme \<Rightarrow> 'a \<Rightarrow> 'a \<Rightarrow> int \<Rightarrow> bool" where
  "is_satisfied self p_obj c_obj iter =
    (if (case test_conv self of None \<Rightarrow> False | Some t \<Rightarrow> t \<noteq> 0 \<and> iter mod t \<noteq> 0)
       then True
     else if (case max_iter self of None \<Rightarrow> False | Some k \<Rightarrow> k \<noteq> 0 \<and> k \<le> iter)
       then False
     else if (case min_residuals self of None \<Rightarrow> False
              | Some r \<Rightarrow> r \<noteq> 0 \<and> iter > 0 \<and> c_obj - p_obj \<le> r)
       then False
     else if iter > 0 \<and> c_obj > p_obj
       then False
     else True)"

subsection \<open>The stabilizer\<close>

text \<open>\<^verbatim>\<open>_adjustment\<close>, lines 104 and 105.\<close>

definition adjustment :: "'a::ord numeric \<Rightarrow> 'a nmf \<Rightarrow> 'a nmf" where
  "adjustment num self =
    (let self = self\<lparr>H := max_scalar (H self) (eps num)\<rparr>;
         self = self\<lparr>W := max_scalar (W self) (eps num)\<rparr>
     in self)"

subsection \<open>The update rules\<close>

text \<open>\<^verbatim>\<open>euclidean_update\<close>, lines 117 and 118: two assignments, the second reading the
  \<^verbatim>\<open>self.H\<close> that the first has written.\<close>

definition euclidean_update :: "('a \<Rightarrow> 'a \<Rightarrow> 'a) \<Rightarrow> 'a::semiring_0 nmf \<Rightarrow> 'a nmf" where
  "euclidean_update dv self =
    (let self = self\<lparr>H := multiply (H self)
                   (elop (dot (T (W self)) (V self))
                         (dot (T (W self)) (dot (W self) (H self))) dv)\<rparr>;
         self = self\<lparr>W := multiply (W self)
                   (elop (dot (V self) (T (H self)))
                         (dot (W self) (dot (H self) (T (H self)))) dv)\<rparr>
     in self)"

text \<open>\<^verbatim>\<open>divergence_update\<close>, lines 122 to 125.\<close>

definition divergence_update :: "('a \<Rightarrow> 'a \<Rightarrow> 'a) \<Rightarrow> 'a::semiring_0 nmf \<Rightarrow> 'a nmf" where
  "divergence_update dv self =
    (let H1 = repmat (T (sum_axis0 (W self))) 1 (ncols (V self));
         self = self\<lparr>H := multiply (H self)
                   (elop (dot (T (W self)) (elop (V self) (dot (W self) (H self)) dv)) H1 dv)\<rparr>;
         W1 = repmat (T (sum_axis1 (H self))) (nrows (V self)) 1;
         self = self\<lparr>W := multiply (W self)
                   (elop (dot (elop (V self) (dot (W self) (H self)) dv) (T (H self))) W1 dv)\<rparr>
     in self)"

subsection \<open>The objective functions\<close>

definition fro_objective :: "'a::ring_1 nmf \<Rightarrow> 'a" where
  "fro_objective self =
     sum_all (sop (elop (V self) (dot (W self) (H self)) (-)) (\<lambda>x. x ^ 2))"

definition div_objective :: "'a::ring numeric \<Rightarrow> 'a nmf \<Rightarrow> 'a" where
  "div_objective num self =
    (let Va = dot (W self) (H self)
     in sum_all (elop (elop (multiply (V self) (sop (elop (V self) Va (op_div num)) (op_log num)))
                            (V self) (-))
                      Va (+)))"

text \<open>
  \<^verbatim>\<open>conn_objective\<close>, lines 141 to 151. Reading an attribute that the object does not have
  raises \<^verbatim>\<open>AttributeError\<close>. In the first branch the right-hand side of line 146 reads
  \<^verbatim>\<open>self.cons\<close> before line 147 assigns it. Subtracting a truth value from \<^verbatim>\<open>True\<close> gives
  its negation. The count of differing elements is returned.
\<close>

definition connectivity :: "'a::linorder nmf \<Rightarrow> bool matrix" where
  \<comment> \<open>lines 141 to 144: the local \<^verbatim>\<open>cons\<close>\<close>
  "connectivity self =
    (let idx = snd (argmax (H self));
         mat1 = repmat idx (ncols (V self)) 1;
         mat2 = repmat (T idx) 1 (ncols (V self))
     in elop mat1 mat2 (=))"

definition count_true :: "bool matrix \<Rightarrow> nat" where
  \<comment> \<open>\<^verbatim>\<open>.sum()\<close> of a matrix of truth values\<close>
  "count_true X = sum_all (sop X (\<lambda>b. if b then 1 else 0))"

definition conn_objective :: "'a::linorder nmf \<Rightarrow> (error + nat) \<times> 'a nmf" where
  "conn_objective self =
    (let cons' = connectivity self
     in case
          (case consold self of
             None \<Rightarrow>
               (case cons self of
                  None \<Rightarrow> (Inl (AttributeError ''cons''), self)
                | Some c \<Rightarrow>
                    let self = self\<lparr>consold := Some (elop (ones_like c) cons' (\<lambda>one b. one \<noteq> b))\<rparr>;
                        self = self\<lparr>cons := Some cons'\<rparr>
                    in (Inr (), self))
           | Some _ \<Rightarrow>
               (case cons self of
                  None \<Rightarrow> (Inl (AttributeError ''cons''), self)
                | Some c \<Rightarrow>
                    let self = self\<lparr>consold := Some c\<rparr>;
                        self = self\<lparr>cons := Some cons'\<rparr>
                    in (Inr (), self)))
        of
          (Inl e, self) \<Rightarrow> (Inl e, self)
        | (Inr _, self) \<Rightarrow>
            (case (cons self, consold self) of
               (Some c, Some co) \<Rightarrow> (Inr (count_true (elop c co (\<noteq>))), self)
             | _ \<Rightarrow> (Inl (AttributeError ''cons''), self)))"

subsection \<open>Resolving the strategies\<close>

datatype update_rule = Euclidean_update | Divergence_update

datatype objective_fn = Fro_objective | Div_objective | Conn_objective

text \<open>
  \<^verbatim>\<open>getattr(self, name)\<close> for a name ending in \<^verbatim>\<open>_update\<close> or \<^verbatim>\<open>_objective\<close>. The class
  defines two methods of the first kind and three of the second; its base classes are
  not among the source files and are taken to define none.
\<close>

definition getattr_update :: "string \<Rightarrow> error + update_rule" where
  "getattr_update name =
    (if name = ''euclidean_update'' then Inr Euclidean_update
     else if name = ''divergence_update'' then Inr Divergence_update
     else Inl (AttributeError name))"

definition getattr_objective :: "string \<Rightarrow> error + objective_fn" where
  "getattr_objective name =
    (if name = ''fro_objective'' then Inr Fro_objective
     else if name = ''div_objective'' then Inr Div_objective
     else if name = ''conn_objective'' then Inr Conn_objective
     else Inl (AttributeError name))"

text \<open>
  \<^verbatim>\<open>_set_params\<close>, lines 109 to 113. The two bound methods that it stores in
  \<^verbatim>\<open>self.update\<close> and \<^verbatim>\<open>self.objective\<close> are returned, and \<^verbatim>\<open>factorize\<close> hands them to
  the loop that calls them.
\<close>

definition set_params ::
  "('a, 'z) params_scheme \<Rightarrow> 'a nmf \<Rightarrow> (error + update_rule \<times> objective_fn) \<times> 'a nmf" where
  "set_params p self =
    (case getattr_update
            ((case options_update p of None \<Rightarrow> ''euclidean'' | Some u \<Rightarrow> u) @ ''_update'') of
       Inl e \<Rightarrow> (Inl e, self)
     | Inr upd \<Rightarrow>
        (case getattr_objective
                ((case options_objective p of None \<Rightarrow> ''fro'' | Some obj \<Rightarrow> obj) @ ''_objective'') of
           Inl e \<Rightarrow> (Inl e, self)
         | Inr obj \<Rightarrow>
            (let self = self\<lparr>track_factor :=
                          (case options_track_factor p of None \<Rightarrow> False | Some b \<Rightarrow> b)\<rparr>;
                 self = self\<lparr>track_error :=
                          (case options_track_error p of None \<Rightarrow> False | Some b \<Rightarrow> b)\<rparr>;
                 self = self\<lparr>tracker :=
                          (if track_factor self \<and> n_run p > 1 \<or> track_error self
                           then Some \<lparr>errors = [], factors = []\<rparr> else None)\<rparr>
             in (Inr (upd, obj), self))))"

definition call_update :: "'a::linordered_field numeric \<Rightarrow> update_rule \<Rightarrow> 'a nmf \<Rightarrow> 'a nmf" where
  "call_update num u self =
    (case u of
       Euclidean_update \<Rightarrow> euclidean_update (op_div num) self
     | Divergence_update \<Rightarrow> divergence_update (op_div num) self)"

definition call_objective ::
  "'a::linordered_field numeric \<Rightarrow> objective_fn \<Rightarrow> 'a nmf \<Rightarrow> (error + 'a) \<times> 'a nmf" where
  "call_objective num obj self =
    (case obj of
       Fro_objective \<Rightarrow> (Inr (fro_objective self), self)
     | Div_objective \<Rightarrow> (Inr (div_objective num self), self)
     | Conn_objective \<Rightarrow>
         (case conn_objective self of
            (Inl e, self) \<Rightarrow> (Inl e, self)
          | (Inr k, self) \<Rightarrow> (Inr (of_nat k), self)))"

subsection \<open>The orchestrator\<close>

text \<open>Line 68, with its guard at line 67.\<close>

definition record_error :: "('a, 'z) params_scheme \<Rightarrow> 'a nmf \<Rightarrow> (error + unit) \<times> 'a nmf" where
  "record_error p self =
    (if track_error self then
       (case tracker self of
          None \<Rightarrow> (Inl (AttributeError ''_track_error''), self)
        | Some t \<Rightarrow>
            (Inr (), self\<lparr>tracker := Some (t\<lparr>errors := errors t @ [residuals p self]\<rparr>)\<rparr>))
     else (Inr (), self))"

text \<open>
  The body of the \<^verbatim>\<open>while\<close> loop, lines 62 to 68, for any update and objective that
  \<^verbatim>\<open>self.update\<close> and \<^verbatim>\<open>self.objective\<close> may be bound to. It is given \<^verbatim>\<open>cobj\<close> and
  \<^verbatim>\<open>iter\<close> and returns their new values; the new \<^verbatim>\<open>pobj\<close> is the \<^verbatim>\<open>cobj\<close> it was given.
\<close>

definition loop_body ::
  "'a::ord numeric \<Rightarrow> ('a, 'z) params_scheme \<Rightarrow> ('a nmf \<Rightarrow> 'a nmf) \<Rightarrow>
   ('a nmf \<Rightarrow> (error + 'a) \<times> 'a nmf) \<Rightarrow> 'a nmf \<Rightarrow> 'a \<Rightarrow> int \<Rightarrow>
   (error + 'a \<times> int) \<times> 'a nmf" where
  "loop_body num p upd obj self cobj iter =
    (let self = upd self;
         self = adjustment num self
     in case (if (case test_conv p of None \<Rightarrow> True | Some t \<Rightarrow> t = 0 \<or> iter mod t = 0)
              then obj self else (Inr cobj, self)) of
          (Inl e, self) \<Rightarrow> (Inl e, self)
        | (Inr cobj, self) \<Rightarrow>
            (let iter = iter + 1
             in case record_error p self of
                  (Inl e, self) \<Rightarrow> (Inl e, self)
                | (Inr _, self) \<Rightarrow> (Inr (cobj, iter), self)))"

text \<open>
  The \<^verbatim>\<open>while\<close> loop, lines 61 to 68. A loop that never stops has the value \<open>None\<close>.
  The result is the last objective value and the iteration count.
\<close>

partial_function (option) iterate ::
  "'a::{zero,minus,ord} numeric \<Rightarrow> ('a, 'z) params_scheme \<Rightarrow> ('a nmf \<Rightarrow> 'a nmf) \<Rightarrow>
   ('a nmf \<Rightarrow> (error + 'a) \<times> 'a nmf) \<Rightarrow> 'a nmf \<Rightarrow> 'a \<Rightarrow> 'a \<Rightarrow> int \<Rightarrow>
   ((error + 'a \<times> int) \<times> 'a nmf) option" where
  "iterate num p upd obj self pobj cobj iter =
    (if is_satisfied p pobj cobj iter then
       (case loop_body num p upd obj self cobj iter of
          (Inl e, self) \<Rightarrow> Some (Inl e, self)
        | (Inr (cobj', iter'), self) \<Rightarrow> iterate num p upd obj self cobj cobj' iter')
     else Some (Inr (cobj, iter), self))"

text \<open>Lines 69 to 72: the callback is given the fitted model, which is the object itself.\<close>

definition invoke_callback ::
  "('a, 'z) params_scheme \<Rightarrow> 'a \<Rightarrow> 'a nmf \<Rightarrow> (error + unit) \<times> 'a nmf" where
  "invoke_callback p cobj self =
    (case callback p of
       None \<Rightarrow> (Inr (), self)
     | Some cb \<Rightarrow>
         (let self = self\<lparr>final_obj := Some cobj\<rparr>
          in case cb self of Some e \<Rightarrow> (Inl e, self) | None \<Rightarrow> (Inr (), self)))"

text \<open>Lines 73 and 74.\<close>

definition record_factor :: "'a nmf \<Rightarrow> (error + unit) \<times> 'a nmf" where
  "record_factor self =
    (if track_factor self then
       (case tracker self of
          None \<Rightarrow> (Inl (AttributeError ''_track_factor''), self)
        | Some t \<Rightarrow>
            (Inr (), self\<lparr>tracker := Some (t\<lparr>factors := factors t @ [(W self, H self)]\<rparr>)\<rparr>))
     else (Inr (), self))"

text \<open>Lines 58 and 59: seeding, then the first evaluation of the objective.\<close>

definition run_start ::
  "('a, 'z) params_scheme \<Rightarrow> ('a nmf \<Rightarrow> (error + 'a) \<times> 'a nmf) \<Rightarrow> nat \<Rightarrow> 'a nmf \<Rightarrow>
   (error + 'a) \<times> 'a nmf" where
  "run_start p obj k self =
    (case seed_initialize p k (V self) (rank p) of
       (W0, H0) \<Rightarrow> obj (self\<lparr>W := W0, H := H0\<rparr>))"

text \<open>The body of the \<^verbatim>\<open>for\<close> loop, lines 58 to 74: run number \<open>k\<close>.\<close>

definition run ::
  "'a::{zero,minus,ord} numeric \<Rightarrow> ('a, 'z) params_scheme \<Rightarrow> ('a nmf \<Rightarrow> 'a nmf) \<Rightarrow>
   ('a nmf \<Rightarrow> (error + 'a) \<times> 'a nmf) \<Rightarrow> nat \<Rightarrow> 'a nmf \<Rightarrow>
   ((error + 'a \<times> int) \<times> 'a nmf) option" where
  "run num p upd obj k self =
    (case run_start p obj k self of
       (Inl e, self) \<Rightarrow> Some (Inl e, self)
     | (Inr cobj, self) \<Rightarrow>
        (case iterate num p upd obj self cobj cobj 0 of
           None \<Rightarrow> None
         | Some (Inl e, self) \<Rightarrow> Some (Inl e, self)
         | Some (Inr (cobj, iter), self) \<Rightarrow>
            (case invoke_callback p cobj self of
               (Inl e, self) \<Rightarrow> Some (Inl e, self)
             | (Inr _, self) \<Rightarrow>
                (case record_factor self of
                   (Inl e, self) \<Rightarrow> Some (Inl e, self)
                 | (Inr _, self) \<Rightarrow> Some (Inr (cobj, iter), self)))))"

text \<open>
  The \<^verbatim>\<open>for\<close> loop over \<^verbatim>\<open>xrange(self.n_run)\<close>. \<open>bound\<close> holds the locals \<^verbatim>\<open>cobj\<close> and
  \<^verbatim>\<open>iter\<close> once a run has assigned them.
\<close>

fun for_runs ::
  "'a::{zero,minus,ord} numeric \<Rightarrow> ('a, 'z) params_scheme \<Rightarrow> ('a nmf \<Rightarrow> 'a nmf) \<Rightarrow>
   ('a nmf \<Rightarrow> (error + 'a) \<times> 'a nmf) \<Rightarrow> nat list \<Rightarrow> ('a \<times> int) option \<Rightarrow> 'a nmf \<Rightarrow>
   ((error + ('a \<times> int) option) \<times> 'a nmf) option" where
  "for_runs num p upd obj [] bound self = Some (Inr bound, self)"
| "for_runs num p upd obj (k # ks) bound self =
    (case run num p upd obj k self of
       None \<Rightarrow> None
     | Some (Inl e, self) \<Rightarrow> Some (Inl e, self)
     | Some (Inr r, self) \<Rightarrow> for_runs num p upd obj ks (Some r) self)"

text \<open>
  \<^verbatim>\<open>factorize\<close>, lines 55 to 79. The fitted model that it returns wraps the object, so
  the final state is the result.
\<close>

definition factorize ::
  "'a::linordered_field numeric \<Rightarrow> ('a, 'z) params_scheme \<Rightarrow> 'a nmf \<Rightarrow>
   ((error + unit) \<times> 'a nmf) option" where
  "factorize num p self =
    (case set_params p self of
       (Inl e, self) \<Rightarrow> Some (Inl e, self)
     | (Inr (upd, obj), self) \<Rightarrow>
        (case for_runs num p (call_update num upd) (call_objective num obj)
                [0..<n_run p] None self of
           None \<Rightarrow> None
         | Some (Inl e, self) \<Rightarrow> Some (Inl e, self)
         | Some (Inr None, self) \<Rightarrow> Some (Inl (UnboundLocalError ''iter''), self)
         | Some (Inr (Some (cobj, iter)), self) \<Rightarrow>
             Some (Inr (), self\<lparr>n_iter := Some iter, final_obj := Some cobj\<rparr>)))"

subsection \<open>The stopping rules in the words of the specification\<close>

text \<open>
  An option is configured when it is set to a value that Python takes as true: not
  \<^verbatim>\<open>None\<close> and not zero (the configuration surface reads "0/unset").
\<close>

fun configured :: "'v::zero option \<Rightarrow> bool" where
  "configured None = False"
| "configured (Some v) = (v \<noteq> 0)"

datatype decision = Continue | Stop

text \<open>A rule table is read top down; the first rule whose condition holds decides.\<close>

fun first_match :: "(bool \<times> decision) list \<Rightarrow> decision \<Rightarrow> decision" where
  "first_match [] d = d"
| "first_match ((c, r) # rules) d = (if c then r else first_match rules d)"

definition not_multiple_of :: "int \<Rightarrow> int option \<Rightarrow> bool" where
  "not_multiple_of i t = (case t of None \<Rightarrow> False | Some k \<Rightarrow> \<not> k dvd i)"

definition limit_reached :: "int \<Rightarrow> int option \<Rightarrow> bool" where
  "limit_reached i m = (case m of None \<Rightarrow> False | Some k \<Rightarrow> k \<le> i)"

definition within_threshold :: "'a::{minus,ord} \<Rightarrow> 'a option \<Rightarrow> bool" where
  "within_threshold d r = (case r of None \<Rightarrow> False | Some x \<Rightarrow> d \<le> x)"

definition stopping_rules ::
  "('a::{zero,minus,ord}, 'z) stopping_scheme \<Rightarrow> 'a \<Rightarrow> 'a \<Rightarrow> int \<Rightarrow> decision" where
  "stopping_rules self p c i = first_match
     [(configured (test_conv self) \<and> not_multiple_of i (test_conv self), Continue),
      (configured (max_iter self) \<and> limit_reached i (max_iter self), Stop),
      (configured (min_residuals self) \<and> i > 0 \<and> within_threshold (c - p) (min_residuals self),
         Stop),
      (i > 0 \<and> c > p, Stop)]
     Continue"

subsection \<open>The update rules in the words of the specification\<close>

text \<open>
  The operators of the formulas, entry by entry: transposition, the matrix product
  \<open>\<cdot>\<close>, the elementwise product \<open>\<odot>\<close> and the elementwise quotient \<open>\<oslash>\<close>, for the
  division that the backend uses.
\<close>

definition transposed :: "'a matrix \<Rightarrow> 'a matrix" where
  "transposed X = map (\<lambda>j. map (\<lambda>i. X ! i ! j) [0..<nrows X]) [0..<ncols X]"

definition matmul :: "'a::semiring_0 matrix \<Rightarrow> 'a matrix \<Rightarrow> 'a matrix" where
  "matmul A B =
     map (\<lambda>i. map (\<lambda>j. \<Sum>k\<leftarrow>[0..<ncols A]. A ! i ! k * B ! k ! j) [0..<ncols B]) [0..<nrows A]"

definition hadamard :: "'a::times matrix \<Rightarrow> 'a matrix \<Rightarrow> 'a matrix" where
  "hadamard A B = map (\<lambda>i. map (\<lambda>j. A ! i ! j * B ! i ! j) [0..<ncols A]) [0..<nrows A]"

definition ratio :: "('a \<Rightarrow> 'a \<Rightarrow> 'a) \<Rightarrow> 'a matrix \<Rightarrow> 'a matrix \<Rightarrow> 'a matrix" where
  "ratio dv A B = map (\<lambda>i. map (\<lambda>j. dv (A ! i ! j) (B ! i ! j)) [0..<ncols A]) [0..<nrows A]"

text \<open>The column sums and the row sums as vectors, and their broadcasts: \<open>broadcast_cols v n\<close>
  is the matrix with \<open>n\<close> columns whose row \<open>k\<close> repeats \<open>v ! k\<close>; \<open>broadcast_rows v m\<close> is the
  matrix whose \<open>m\<close> rows are all \<open>v\<close>.\<close>

definition colsum :: "'a::monoid_add matrix \<Rightarrow> 'a list" where
  "colsum X = map (\<lambda>j. \<Sum>i\<leftarrow>[0..<nrows X]. X ! i ! j) [0..<ncols X]"

definition rowsum :: "'a::monoid_add matrix \<Rightarrow> 'a list" where
  "rowsum X = map (\<lambda>i. \<Sum>j\<leftarrow>[0..<ncols X]. X ! i ! j) [0..<nrows X]"

definition broadcast_cols :: "'a list \<Rightarrow> nat \<Rightarrow> 'a matrix" where
  "broadcast_cols v n = map (\<lambda>k. replicate n (v ! k)) [0..<length v]"

definition broadcast_rows :: "'a list \<Rightarrow> nat \<Rightarrow> 'a matrix" where
  "broadcast_rows v m = replicate m v"

text \<open>
  The Euclidean step: \<open>H \<leftarrow> H \<odot> (W\<^sup>t\<cdot>V) \<oslash> (W\<^sup>t\<cdot>W\<cdot>H)\<close> and
  \<open>W \<leftarrow> W \<odot> (V\<cdot>H\<^sup>t) \<oslash> (W\<cdot>H\<cdot>H\<^sup>t)\<close>, each factor multiplied by a ratio, the products
  taken from left to right.
\<close>

definition euclidean_H :: "('a \<Rightarrow> 'a \<Rightarrow> 'a) \<Rightarrow> 'a::semiring_0 matrix \<Rightarrow> 'a matrix \<Rightarrow> 'a matrix \<Rightarrow> 'a matrix" where
  "euclidean_H dv V0 W0 H0 =
     hadamard H0 (ratio dv (matmul (transposed W0) V0) (matmul (matmul (transposed W0) W0) H0))"

definition euclidean_W :: "('a \<Rightarrow> 'a \<Rightarrow> 'a) \<Rightarrow> 'a::semiring_0 matrix \<Rightarrow> 'a matrix \<Rightarrow> 'a matrix \<Rightarrow> 'a matrix" where
  "euclidean_W dv V0 W0 H0 =
     hadamard W0 (ratio dv (matmul V0 (transposed H0)) (matmul (matmul W0 H0) (transposed H0)))"

text \<open>
  The divergence step: \<open>H \<leftarrow> H \<odot> [W\<^sup>t\<cdot>(V \<oslash> (W\<cdot>H))] \<oslash> broadcast(colsum(W), n)\<close> and
  \<open>W \<leftarrow> W \<odot> [(V \<oslash> (W\<cdot>H))\<cdot>H\<^sup>t] \<oslash> broadcast(rowsum(H), m)\<close>, where \<open>V\<close> is \<open>m \<times> n\<close>.
\<close>

definition divergence_H :: "('a \<Rightarrow> 'a \<Rightarrow> 'a) \<Rightarrow> 'a::semiring_0 matrix \<Rightarrow> 'a matrix \<Rightarrow> 'a matrix \<Rightarrow> 'a matrix" where
  "divergence_H dv V0 W0 H0 =
     hadamard H0 (ratio dv (matmul (transposed W0) (ratio dv V0 (matmul W0 H0)))
                           (broadcast_cols (colsum W0) (ncols V0)))"

definition divergence_W :: "('a \<Rightarrow> 'a \<Rightarrow> 'a) \<Rightarrow> 'a::semiring_0 matrix \<Rightarrow> 'a matrix \<Rightarrow> 'a matrix \<Rightarrow> 'a matrix" where
  "divergence_W dv V0 W0 H0 =
     hadamard W0 (ratio dv (matmul (ratio dv V0 (matmul W0 H0)) (transposed H0))
                           (broadcast_rows (rowsum H0) (nrows V0)))"

subsection \<open>The connectivity matrix in the words of the specification\<close>

text \<open>
  \<open>dominant\<close> lists, for each column of \<^verbatim>\<open>H\<close>, the row of its first greatest entry
  (\<open>idx\<close>); the connectivity matrix has \<open>cons[i][j] = (idx[i] = idx[j])\<close>.
\<close>

definition dominant :: "'a::linorder matrix \<Rightarrow> nat list" where
  "dominant H0 = map (\<lambda>j. argmax_list (map (\<lambda>i. H0 ! i ! j) [0..<nrows H0])) [0..<ncols H0]"

definition co_assignment :: "nat list \<Rightarrow> bool matrix" where
  "co_assignment idx = map (\<lambda>i. map (\<lambda>j. i = j) idx) idx"

subsection \<open>Counting update steps\<close>

text \<open>
  \<open>passes n\<close> performs the loop body \<open>n\<close> times without consulting the stopping
  criteria: exactly \<open>n\<close> update steps, unless an exception ends it earlier.
\<close>

fun passes ::
  "'a::ord numeric \<Rightarrow> ('a, 'z) params_scheme \<Rightarrow> ('a nmf \<Rightarrow> 'a nmf) \<Rightarrow>
   ('a nmf \<Rightarrow> (error + 'a) \<times> 'a nmf) \<Rightarrow> nat \<Rightarrow> 'a nmf \<Rightarrow> 'a \<Rightarrow> int \<Rightarrow>
   (error + 'a \<times> int) \<times> 'a nmf" where
  "passes num p upd obj 0 self cobj iter = (Inr (cobj, iter), self)"
| "passes num p upd obj (Suc n) self cobj iter =
    (case loop_body num p upd obj self cobj iter of
       (Inl e, self) \<Rightarrow> (Inl e, self)
     | (Inr (cobj', iter'), self) \<Rightarrow> passes num p upd obj n self cobj' iter')"


subsection \<open>Notions used in the statements\<close>


text \<open>The configured names, with the defaults of the configuration surface.\<close>

definition update_name :: "('a, 'z) params_scheme \<Rightarrow> string" where
  "update_name p = (case options_update p of None \<Rightarrow> ''euclidean'' | Some u \<Rightarrow> u)"

definition objective_name :: "('a, 'z) params_scheme \<Rightarrow> string" where
  "objective_name p = (case options_objective p of None \<Rightarrow> ''fro'' | Some u \<Rightarrow> u)"

text \<open>Factor tracking is on, error tracking is off, and \<^verbatim>\<open>self.tracker\<close> is \<^verbatim>\<open>None\<close>.\<close>

definition no_tracker :: "'a nmf \<Rightarrow> bool" where
  "no_tracker s = (track_factor s \<and> \<not> track_error s \<and> tracker s = None)"

subsection \<open>Concrete inputs\<close>

text \<open>
  The inputs at which the theorems below are evaluated. The examples compute with real
  numbers, where every value that occurs is a fraction that floating point either
  represents or rounds without changing a comparison made here.
\<close>

definition exact :: "real numeric" where
  "exact = \<lparr>eps = 1 / 2 ^ 52, op_div = (/), op_log = ln\<rparr>"

text \<open>The seeding method "fixed": the factors it was given, in every run.\<close>

definition fixed_seed ::
  "real matrix \<Rightarrow> real matrix \<Rightarrow> nat \<Rightarrow> real matrix \<Rightarrow> nat \<Rightarrow> real matrix \<times> real matrix" where
  "fixed_seed W0 H0 k V0 r = (W0, H0)"

text \<open>An engine on which \<^verbatim>\<open>factorize\<close> has not been called: nothing assigned but \<^verbatim>\<open>V\<close>.\<close>

definition fresh :: "real matrix \<Rightarrow> real nmf" where
  "fresh V0 = \<lparr>V = V0, W = [], H = [], cons = None, consold = None, track_factor = False,
     track_error = False, tracker = None, n_iter = None, final_obj = None\<rparr>"

definition settings :: "string \<Rightarrow> string \<Rightarrow> real matrix \<Rightarrow> real matrix \<Rightarrow> real params" where
  "settings u obj W0 H0 = \<lparr>test_conv = None, max_iter = Some 5, min_residuals = None,
     options_update = Some u, options_objective = Some obj,
     options_track_factor = None, options_track_error = None, n_run = 1, rank = 1,
     seed_initialize = fixed_seed W0 H0, callback = None, residuals = fro_objective\<rparr>"

text \<open>
  A run whose objective values are prescribed: the row of \<^verbatim>\<open>H\<close> lists the values still
  to come, an update step moves to the next one, and the objective reads the first.
\<close>

definition replay_update :: "real nmf \<Rightarrow> real nmf" where
  "replay_update self = self\<lparr>H := map tl (H self)\<rparr>"

definition replay_objective :: "real nmf \<Rightarrow> (error + real) \<times> real nmf" where
  "replay_objective self = (Inr (hd (hd (H self))), self)"

definition replay :: "real list \<Rightarrow> real nmf" where
  "replay vs = (fresh [[1]])\<lparr>W := [[1]], H := [vs]\<rparr>"

section \<open>Theorems\<close>

subsection \<open>The stopping evaluator\<close>

text \<open>
  C2. For every previous objective value \<open>p\<close>, current value \<open>c\<close> and iteration index
  \<open>i\<close>, \<^verbatim>\<open>_is_satisfied\<close> answers "continue" exactly when the rule table of the
  specification, read in its fixed order with the first matching rule winning, says
  continue: (1) periodic test configured and \<open>i\<close> not a multiple of it: continue;
  (2) maximum configured and at most \<open>i\<close>: stop; (3) threshold configured, \<open>i > 0\<close> and
  \<open>c - p\<close> at most the threshold: stop; (4) \<open>i > 0\<close> and \<open>c > p\<close>: stop; (5) otherwise
  continue.
\<close>

theorem is_satisfied_decision_order:
  "is_satisfied self p c i = (stopping_rules self p c i = Continue)"
  by (cases "test_conv self"; cases "max_iter self"; cases "min_residuals self")
     (simp_all add: is_satisfied_def stopping_rules_def not_multiple_of_def limit_reached_def
        within_threshold_def dvd_eq_mod_eq_0)

theorem is_satisfied_decision_order_witness:
  "is_satisfied \<lparr>test_conv = Some 3, max_iter = Some 2, min_residuals = Some (1::real)\<rparr> 5 4 4
   \<and> \<not> is_satisfied \<lparr>test_conv = Some 3, max_iter = Some 2, min_residuals = None\<rparr> (5::real) 4 3
   \<and> \<not> is_satisfied \<lparr>test_conv = None, max_iter = Some 9, min_residuals = Some (1/100)\<rparr>
         (5::real) (9/2) 1
   \<and> \<not> is_satisfied \<lparr>test_conv = None, max_iter = Some 9, min_residuals = Some (1/100)\<rparr>
         (5::real) 6 1
   \<and> is_satisfied \<lparr>test_conv = None, max_iter = Some 9, min_residuals = None\<rparr> (5::real) 4 1"
  using is_satisfied_decision_order
    [of "\<lparr>test_conv = Some 3, max_iter = Some 2, min_residuals = Some (1::real)\<rparr>" 5 4 4]
    is_satisfied_decision_order
    [of "\<lparr>test_conv = Some 3, max_iter = Some 2, min_residuals = None\<rparr>" "5::real" 4 3]
    is_satisfied_decision_order
    [of "\<lparr>test_conv = None, max_iter = Some 9, min_residuals = Some (1/100)\<rparr>" "5::real" "9/2" 1]
    is_satisfied_decision_order
    [of "\<lparr>test_conv = None, max_iter = Some 9, min_residuals = Some (1/100)\<rparr>" "5::real" 6 1]
    is_satisfied_decision_order
    [of "\<lparr>test_conv = None, max_iter = Some 9, min_residuals = None\<rparr>" "5::real" 4 1]
  by (simp add: stopping_rules_def not_multiple_of_def limit_reached_def within_threshold_def)

lemma loop_body_iter:
  "loop_body num p upd obj s c i = (Inr (c', i'), s') \<Longrightarrow> i' = i + 1"
  by (auto simp: loop_body_def Let_def split: if_splits prod.splits sum.splits)

lemma passes_count:
  "passes num p upd obj n s c i = (Inr (c', i'), s') \<Longrightarrow> i' = i + int n"
proof (induction n arbitrary: s c i)
  case 0
  then show ?case by simp
next
  case (Suc n)
  from Suc.prems obtain c1 i1 s1 where
    b: "loop_body num p upd obj s c i = (Inr (c1, i1), s1)" and
    r: "passes num p upd obj n s1 c1 i1 = (Inr (c', i'), s')"
    by (auto split: prod.splits sum.splits)
  from loop_body_iter[OF b] Suc.IH[OF r] show ?case by simp
qed



text \<open>A positive threshold together with rule 4 leaves no way to continue once
  \<open>i > 0\<close>: either the signed difference is below the threshold or the objective grew.\<close>

lemma positive_threshold_never_continues:
  fixes c :: "'a::linordered_field"
  assumes "min_residuals p = Some r" "0 < r" "test_conv p = None \<or> test_conv p = Some 0" "0 < i"
  shows "\<not> is_satisfied p pobj c i"
  using assms by (auto simp: is_satisfied_def split: option.splits)



lemmas run_the_code = factorize_def set_params_def getattr_update_def getattr_objective_def
  call_update_def call_objective_def run_def run_start_def loop_body_def record_error_def
  invoke_callback_def record_factor_def adjustment_def max_scalar_def
  euclidean_update_def divergence_update_def fro_objective_def
  dot_def T_def ncols_def nrows_def elop_def multiply_def sop_def sum_all_def sum_axis0_def
  sum_axis1_def repmat_def is_satisfied_def exact_def fixed_seed_def fresh_def settings_def
  replay_def replay_update_def replay_objective_def Let_def power2_eq_square


text \<open>
  C3. With \<^verbatim>\<open>min_residuals = 0.01\<close> and \<^verbatim>\<open>test_conv = 0\<close>, a run whose objective goes
  10.0, 9.5, 9.0, 8.999 should stop where the drop of 0.001 is observed, at iteration 3.
  The code compares the signed difference \<^verbatim>\<open>c_obj - p_obj\<close> with the threshold, so the
  first drop of 0.5 already gives \<open>-0.5 \<le> 0.01\<close>: \<^verbatim>\<open>_is_satisfied(10.0, 9.5, 1)\<close> is false and
  the loop ends with \<^verbatim>\<open>iter = 1\<close>, after one update step.
\<close>

theorem min_residuals_stops_at_first_drop:
  "\<not> is_satisfied ((settings ''euclidean'' ''fro'' [] [])
        \<lparr>test_conv := Some 0, max_iter := None, min_residuals := Some (1 / 100)\<rparr>) 10 (19 / 2) 1
   \<and> iterate exact ((settings ''euclidean'' ''fro'' [] [])
        \<lparr>test_conv := Some 0, max_iter := None, min_residuals := Some (1 / 100)\<rparr>)
        replay_update replay_objective (replay [10, 19 / 2, 9, 8999 / 1000]) 10 10 0
     = Some (Inr (19 / 2, 1), replay [19 / 2, 9, 8999 / 1000])"
  by (simp add: run_the_code iterate.simps)

subsection \<open>The iteration limit\<close>




subsection \<open>The update rules\<close>

lemmas run_the_spec = mat_def fresh_def euclidean_H_def euclidean_W_def divergence_H_def
  divergence_W_def matmul_def transposed_def hadamard_def ratio_def colsum_def rowsum_def
  broadcast_cols_def broadcast_rows_def ncols_def nrows_def

lemma mat_length: "mat m n X \<Longrightarrow> length X = m"
  by (simp add: mat_def)

lemma mat_row: "mat m n X \<Longrightarrow> i < m \<Longrightarrow> length (X ! i) = n"
  by (simp add: mat_def list_all_length)

lemma matI: "length X = m \<Longrightarrow> (\<And>i. i < m \<Longrightarrow> length (X ! i) = n) \<Longrightarrow> mat m n X"
  by (simp add: mat_def list_all_length)

lemma ncols_mat: "mat m n X \<Longrightarrow> 0 < m \<Longrightarrow> ncols X = n"
  by (cases X) (simp_all add: mat_def ncols_def)

lemma nrows_mat: "mat m n X \<Longrightarrow> nrows X = m"
  by (simp add: mat_def nrows_def)

lemma mat_eqI:
  assumes "mat m n X" "mat m n Y" "\<And>i j. i < m \<Longrightarrow> j < n \<Longrightarrow> X ! i ! j = Y ! i ! j"
  shows "X = Y"
proof (rule nth_equalityI)
  show "length X = length Y" using assms by (simp add: mat_length)
next
  fix i assume "i < length X"
  then have i: "i < m" using assms(1) by (simp add: mat_length)
  show "X ! i = Y ! i"
    by (rule nth_equalityI) (use i assms in \<open>simp_all add: mat_row\<close>)
qed

lemma T_transposed: "T X = transposed X"
  by (auto simp: T_def transposed_def nrows_def intro!: nth_equalityI)

lemma T_mat: "mat m n X \<Longrightarrow> 0 < m \<Longrightarrow> mat n m (T X)"
  by (rule matI) (simp_all add: T_def ncols_mat mat_length)

lemma T_nth: "mat m n X \<Longrightarrow> 0 < m \<Longrightarrow> i < m \<Longrightarrow> j < n \<Longrightarrow> T X ! j ! i = X ! i ! j"
  by (simp add: T_def ncols_mat mat_length)

lemma sum_list_map2_times:
  "length xs = k \<Longrightarrow> length ys = k \<Longrightarrow>
   sum_list (map2 (*) xs ys) = (\<Sum>l<k. xs ! l * ys ! (l::nat))"
  by (simp add: sum_list_sum_nth atLeast0LessThan)

lemma dot_mat: "mat a b A \<Longrightarrow> mat b c B \<Longrightarrow> 0 < b \<Longrightarrow> mat a c (dot A B)"
  by (rule matI) (simp_all add: dot_def mat_length T_def ncols_mat)

lemma dot_nth:
  assumes "mat a b A" "mat b c B" "0 < b" "i < a" "j < c"
  shows "dot A B ! i ! j = (\<Sum>l<b. A ! i ! l * B ! l ! j)"
proof -
  have "dot A B ! i ! j = sum_list (map2 (*) (A ! i) (T B ! j))"
    using assms by (simp add: dot_def mat_length T_def ncols_mat)
  also have "\<dots> = (\<Sum>l<b. A ! i ! l * T B ! j ! l)"
    using assms T_mat[OF assms(2,3)] by (intro sum_list_map2_times) (simp_all add: mat_row)
  also have "\<dots> = (\<Sum>l<b. A ! i ! l * B ! l ! j)"
    using assms by (intro sum.cong) (simp_all add: T_nth)
  finally show ?thesis .
qed

lemma dot_assoc:
  assumes A: "mat a b A" and B: "mat b c B" and C: "mat c d C" and b: "0 < b" and c: "0 < c"
  shows "dot (dot A B) C = dot A (dot B C)"
proof (rule mat_eqI)
  show "mat a d (dot (dot A B) C)" by (rule dot_mat[OF dot_mat[OF A B b] C c])
  show "mat a d (dot A (dot B C))" by (rule dot_mat[OF A dot_mat[OF B C c] b])
next
  fix i j assume ij: "i < a" "j < d"
  have "dot (dot A B) C ! i ! j = (\<Sum>l<c. dot A B ! i ! l * C ! l ! j)"
    by (rule dot_nth[OF dot_mat[OF A B b] C c ij])
  also have "\<dots> = (\<Sum>l<c. (\<Sum>k<b. A ! i ! k * B ! k ! l) * C ! l ! j)"
    by (intro sum.cong refl) (simp add: dot_nth[OF A B b ij(1)])
  also have "\<dots> = (\<Sum>l<c. \<Sum>k<b. A ! i ! k * (B ! k ! l * C ! l ! j))"
    by (simp add: sum_distrib_right mult.assoc)
  also have "\<dots> = (\<Sum>k<b. \<Sum>l<c. A ! i ! k * (B ! k ! l * C ! l ! j))"
    by (rule sum.swap)
  also have "\<dots> = (\<Sum>k<b. A ! i ! k * (\<Sum>l<c. B ! k ! l * C ! l ! j))"
    by (simp add: sum_distrib_left)
  also have "\<dots> = (\<Sum>k<b. A ! i ! k * dot B C ! k ! j)"
    by (intro sum.cong refl) (simp add: dot_nth[OF B C c _ ij(2)])
  also have "\<dots> = dot A (dot B C) ! i ! j"
    by (rule dot_nth[OF A dot_mat[OF B C c] b ij, symmetric])
  finally show "dot (dot A B) C ! i ! j = dot A (dot B C) ! i ! j" .
qed

lemma dot_matmul:
  assumes "mat a b A" "mat b c B" "0 < a" "0 < b"
  shows "dot A B = matmul A B"
proof (rule mat_eqI)
  show "mat a c (dot A B)" by (rule dot_mat[OF assms(1,2,4)])
  show "mat a c (matmul A B)"
    using assms by (intro matI) (simp_all add: matmul_def nrows_mat ncols_mat)
next
  fix i j assume "i < a" "j < c"
  then show "dot A B ! i ! j = matmul A B ! i ! j"
    using assms
    by (simp add: dot_nth[OF assms(1,2,4)] matmul_def nrows_mat ncols_mat
        interv_sum_list_conv_sum_set_nat atLeast0LessThan)
qed

lemma elop_mat: "mat m n A \<Longrightarrow> mat m n B \<Longrightarrow> mat m n (elop A B f)"
  by (rule matI) (simp_all add: elop_def mat_length mat_row)

lemma elop_ratio:
  assumes "mat m n A" "mat m n B" "0 < m"
  shows "elop A B dv = ratio dv A B"
proof (rule mat_eqI)
  show "mat m n (elop A B dv)" by (rule elop_mat[OF assms(1,2)])
  show "mat m n (ratio dv A B)"
    using assms by (intro matI) (simp_all add: ratio_def nrows_mat ncols_mat)
next
  fix i j assume "i < m" "j < n"
  then show "elop A B dv ! i ! j = ratio dv A B ! i ! j"
    using assms by (simp add: elop_def ratio_def nrows_mat ncols_mat mat_length mat_row)
qed

lemma multiply_mat: "mat m n A \<Longrightarrow> mat m n B \<Longrightarrow> mat m n (multiply A B)"
  by (rule matI) (simp_all add: multiply_def mat_length mat_row)

lemma multiply_hadamard:
  assumes "mat m n A" "mat m n B" "0 < m"
  shows "multiply A B = hadamard A B"
proof (rule mat_eqI)
  show "mat m n (multiply A B)" by (rule multiply_mat[OF assms(1,2)])
  show "mat m n (hadamard A B)"
    using assms by (intro matI) (simp_all add: hadamard_def nrows_mat ncols_mat)
next
  fix i j assume "i < m" "j < n"
  then show "multiply A B ! i ! j = hadamard A B ! i ! j"
    using assms by (simp add: multiply_def hadamard_def nrows_mat ncols_mat mat_length mat_row)
qed

lemma concat_replicate_single: "concat (replicate n [x]) = replicate n x"
  by (induction n) simp_all

lemma repmat_column:
  "repmat (map (\<lambda>x. [x]) v) 1 n = map (\<lambda>x. replicate n x) v"
  by (simp add: repmat_def concat_replicate_single comp_def)

lemma repmat_row: "repmat [v] m 1 = replicate m v"
  by (simp add: repmat_def concat_replicate_single)

lemma T_row: "T [v] = map (\<lambda>x. [x]) v"
  by (auto simp: T_def ncols_def intro!: nth_equalityI)

lemma T_column: "v \<noteq> [] \<Longrightarrow> T (map (\<lambda>x. [x]) v) = [v]"
  by (cases v) (auto simp: T_def ncols_def intro!: nth_equalityI)

lemma column_as_index: "map (\<lambda>r. r ! j) X = map (\<lambda>i. X ! i ! j) [0..<length X]"
  by (auto intro!: nth_equalityI)

lemma map_index: "map (\<lambda>k. f (v ! k)) [0..<length v] = map f v"
  by (auto intro!: nth_equalityI)

lemma broadcast_colsum:
  "repmat (T (sum_axis0 X)) 1 n = broadcast_cols (colsum X) n"
proof -
  have "sum_axis0 X = [colsum X]"
    by (simp add: sum_axis0_def colsum_def nrows_def column_as_index)
  then have "T (sum_axis0 X) = map (\<lambda>x. [x]) (colsum X)"
    by (simp only: T_row)
  then have "repmat (T (sum_axis0 X)) 1 n = map (\<lambda>x. replicate n x) (colsum X)"
    by (simp only: repmat_column)
  also have "\<dots> = broadcast_cols (colsum X) n"
    by (simp only: broadcast_cols_def map_index)
  finally show ?thesis .
qed

lemma broadcast_rowsum:
  assumes "mat r n X" "0 < r"
  shows "repmat (T (sum_axis1 X)) m 1 = broadcast_rows (rowsum X) m"
proof -
  have s: "sum_axis1 X = map (\<lambda>x. [x]) (map sum_list X)" by (simp add: sum_axis1_def)
  have ne: "map sum_list X \<noteq> []" using assms by (auto simp: mat_def)
  have "T (sum_axis1 X) = [map sum_list X]" unfolding s by (rule T_column[OF ne])
  moreover have "map sum_list X = rowsum X"
    using assms
    by (auto simp: rowsum_def nrows_mat ncols_mat mat_length mat_row map_nth
        intro!: nth_equalityI arg_cong[where f = sum_list])
  ultimately show ?thesis by (simp only: repmat_row broadcast_rows_def)
qed

lemma euclidean_H_code:
  fixes V0 :: "'a::semiring_0 matrix"
  assumes V0: "mat m n V0" and W0: "mat m r W0" and H0: "mat r n H0"
    and m: "0 < m" and r: "0 < r"
  shows "multiply H0 (elop (dot (T W0) V0) (dot (T W0) (dot W0 H0)) dv) = euclidean_H dv V0 W0 H0"
    and "mat r n (multiply H0 (elop (dot (T W0) V0) (dot (T W0) (dot W0 H0)) dv))"
proof -
  have Wt: "mat r m (T W0)" by (rule T_mat[OF W0 m])
  have A: "mat r n (dot (T W0) V0)" by (rule dot_mat[OF Wt V0 m])
  have WH: "mat m n (dot W0 H0)" by (rule dot_mat[OF W0 H0 r])
  have B: "mat r n (dot (T W0) (dot W0 H0))" by (rule dot_mat[OF Wt WH m])
  have WtW: "mat r r (dot (T W0) W0)" by (rule dot_mat[OF Wt W0 m])
  have Q: "mat r n (elop (dot (T W0) V0) (dot (T W0) (dot W0 H0)) dv)" by (rule elop_mat[OF A B])
  show "mat r n (multiply H0 (elop (dot (T W0) V0) (dot (T W0) (dot W0 H0)) dv))"
    by (rule multiply_mat[OF H0 Q])
  have "matmul (matmul (transposed W0) W0) H0 = dot (dot (T W0) W0) H0"
    by (simp only: T_transposed[symmetric] dot_matmul[OF Wt W0 r m, symmetric]
        dot_matmul[OF WtW H0 r r, symmetric])
  also have "\<dots> = dot (T W0) (dot W0 H0)" by (rule dot_assoc[OF Wt W0 H0 m r])
  finally have B': "matmul (matmul (transposed W0) W0) H0 = dot (T W0) (dot W0 H0)" .
  have A': "matmul (transposed W0) V0 = dot (T W0) V0"
    by (simp only: T_transposed[symmetric] dot_matmul[OF Wt V0 r m, symmetric])
  show "multiply H0 (elop (dot (T W0) V0) (dot (T W0) (dot W0 H0)) dv) = euclidean_H dv V0 W0 H0"
    by (simp only: euclidean_H_def A' B' elop_ratio[OF A B r, symmetric]
        multiply_hadamard[OF H0 Q r, symmetric])
qed

lemma euclidean_W_code:
  fixes V0 :: "'a::semiring_0 matrix"
  assumes V0: "mat m n V0" and W0: "mat m r W0" and H0: "mat r n H0"
    and m: "0 < m" and r: "0 < r" and n: "0 < n"
  shows "multiply W0 (elop (dot V0 (T H0)) (dot W0 (dot H0 (T H0))) dv) = euclidean_W dv V0 W0 H0"
proof -
  have Ht: "mat n r (T H0)" by (rule T_mat[OF H0 r])
  have A: "mat m r (dot V0 (T H0))" by (rule dot_mat[OF V0 Ht n])
  have HHt: "mat r r (dot H0 (T H0))" by (rule dot_mat[OF H0 Ht n])
  have B: "mat m r (dot W0 (dot H0 (T H0)))" by (rule dot_mat[OF W0 HHt r])
  have WH: "mat m n (dot W0 H0)" by (rule dot_mat[OF W0 H0 r])
  have Q: "mat m r (elop (dot V0 (T H0)) (dot W0 (dot H0 (T H0))) dv)" by (rule elop_mat[OF A B])
  have "matmul (matmul W0 H0) (transposed H0) = dot (dot W0 H0) (T H0)"
    by (simp only: T_transposed[symmetric] dot_matmul[OF W0 H0 m r, symmetric]
        dot_matmul[OF WH Ht m n, symmetric])
  also have "\<dots> = dot W0 (dot H0 (T H0))" by (rule dot_assoc[OF W0 H0 Ht r n])
  finally have B': "matmul (matmul W0 H0) (transposed H0) = dot W0 (dot H0 (T H0))" .
  have A': "matmul V0 (transposed H0) = dot V0 (T H0)"
    by (simp only: T_transposed[symmetric] dot_matmul[OF V0 Ht m n, symmetric])
  show ?thesis
    by (simp only: euclidean_W_def A' B' elop_ratio[OF A B m, symmetric]
        multiply_hadamard[OF W0 Q m, symmetric])
qed

text \<open>
  C4. One Euclidean update step sets \<^verbatim>\<open>H\<close> to \<open>H \<odot> (W\<^sup>t\<cdot>V) \<oslash> (W\<^sup>t\<cdot>W\<cdot>H)\<close>, computed with
  the old \<^verbatim>\<open>W\<close>, and then \<^verbatim>\<open>W\<close> to \<open>W \<odot> (V\<cdot>H\<^sup>t) \<oslash> (W\<cdot>H\<cdot>H\<^sup>t)\<close>, computed with the \<^verbatim>\<open>H\<close>
  just written; nothing else changes. \<open>V\<close> is \<open>m \<times> n\<close>, \<open>W\<close> is \<open>m \<times> r\<close>, \<open>H\<close> is
  \<open>r \<times> n\<close>, none of them empty. The source multiplies from right to left, which gives
  the same products.
\<close>

theorem euclidean_update_step:
  fixes s :: "'a::semiring_0 nmf"
  assumes "mat m n (V s)" and "mat m r (W s)" and "mat r n (H s)"
    and "0 < m" and "0 < r" and "0 < n"
  shows "euclidean_update dv s =
           s\<lparr>H := euclidean_H dv (V s) (W s) (H s),
             W := euclidean_W dv (V s) (W s) (euclidean_H dv (V s) (W s) (H s))\<rparr>"
proof -
  let ?H' = "multiply (H s) (elop (dot (T (W s)) (V s)) (dot (T (W s)) (dot (W s) (H s))) dv)"
  have h: "?H' = euclidean_H dv (V s) (W s) (H s)" and hm: "mat r n ?H'"
    by (rule euclidean_H_code[OF assms(1-5)])+
  have w: "multiply (W s) (elop (dot (V s) (T ?H')) (dot (W s) (dot ?H' (T ?H'))) dv)
           = euclidean_W dv (V s) (W s) ?H'"
    by (rule euclidean_W_code[OF assms(1,2) hm assms(4-6)])
  show ?thesis
    by (simp add: euclidean_update_def Let_def w) (simp add: h)
qed

theorem euclidean_update_step_witness:
  "euclidean_update (/) ((fresh [[0, 5], [4, 0]])\<lparr>W := [[2], [1]], H := [[1, 2]]\<rparr>)
   = (fresh [[0, 5], [4, 0]])\<lparr>W := [[125 / 58], [20 / 29]], H := [[4 / 5, 2]]\<rparr>"
  using euclidean_update_step[of 2 2 "(fresh [[0, 5], [4, 0]])\<lparr>W := [[2], [1]], H := [[1, 2]]\<rparr>"
      1 "(/)"]
  by (simp add: run_the_spec)

lemma divergence_H_code:
  fixes V0 :: "'a::semiring_0 matrix"
  assumes V0: "mat m n V0" and W0: "mat m r W0" and H0: "mat r n H0"
    and m: "0 < m" and r: "0 < r"
  shows "multiply H0 (elop (dot (T W0) (elop V0 (dot W0 H0) dv))
            (repmat (T (sum_axis0 W0)) 1 (ncols V0)) dv) = divergence_H dv V0 W0 H0"
    and "mat r n (multiply H0 (elop (dot (T W0) (elop V0 (dot W0 H0) dv))
            (repmat (T (sum_axis0 W0)) 1 (ncols V0)) dv))"
proof -
  have Wt: "mat r m (T W0)" by (rule T_mat[OF W0 m])
  have WH: "mat m n (dot W0 H0)" by (rule dot_mat[OF W0 H0 r])
  have q: "mat m n (elop V0 (dot W0 H0) dv)" by (rule elop_mat[OF V0 WH])
  have A: "mat r n (dot (T W0) (elop V0 (dot W0 H0) dv))" by (rule dot_mat[OF Wt q m])
  have bc: "repmat (T (sum_axis0 W0)) 1 (ncols V0) = broadcast_cols (colsum W0) (ncols V0)"
    by (rule broadcast_colsum)
  have B: "mat r n (broadcast_cols (colsum W0) (ncols V0))"
    using V0 W0 m by (intro matI) (simp_all add: broadcast_cols_def colsum_def ncols_mat)
  have Q: "mat r n (elop (dot (T W0) (elop V0 (dot W0 H0) dv))
                      (broadcast_cols (colsum W0) (ncols V0)) dv)"
    by (rule elop_mat[OF A B])
  show "mat r n (multiply H0 (elop (dot (T W0) (elop V0 (dot W0 H0) dv))
            (repmat (T (sum_axis0 W0)) 1 (ncols V0)) dv))"
    unfolding bc by (rule multiply_mat[OF H0 Q])
  have q': "ratio dv V0 (matmul W0 H0) = elop V0 (dot W0 H0) dv"
    by (simp only: dot_matmul[OF W0 H0 m r, symmetric] elop_ratio[OF V0 WH m, symmetric])
  have A': "matmul (transposed W0) (ratio dv V0 (matmul W0 H0))
            = dot (T W0) (elop V0 (dot W0 H0) dv)"
    by (simp only: q' T_transposed[symmetric] dot_matmul[OF Wt q r m, symmetric])
  show "multiply H0 (elop (dot (T W0) (elop V0 (dot W0 H0) dv))
            (repmat (T (sum_axis0 W0)) 1 (ncols V0)) dv) = divergence_H dv V0 W0 H0"
    by (simp only: divergence_H_def A' bc elop_ratio[OF A B r, symmetric]
        multiply_hadamard[OF H0 Q r, symmetric])
qed

lemma divergence_W_code:
  fixes V0 :: "'a::semiring_0 matrix"
  assumes V0: "mat m n V0" and W0: "mat m r W0" and H0: "mat r n H0"
    and m: "0 < m" and r: "0 < r" and n: "0 < n"
  shows "multiply W0 (elop (dot (elop V0 (dot W0 H0) dv) (T H0))
            (repmat (T (sum_axis1 H0)) (nrows V0) 1) dv) = divergence_W dv V0 W0 H0"
proof -
  have Ht: "mat n r (T H0)" by (rule T_mat[OF H0 r])
  have WH: "mat m n (dot W0 H0)" by (rule dot_mat[OF W0 H0 r])
  have q: "mat m n (elop V0 (dot W0 H0) dv)" by (rule elop_mat[OF V0 WH])
  have A: "mat m r (dot (elop V0 (dot W0 H0) dv) (T H0))" by (rule dot_mat[OF q Ht n])
  have br: "repmat (T (sum_axis1 H0)) (nrows V0) 1 = broadcast_rows (rowsum H0) (nrows V0)"
    by (rule broadcast_rowsum[OF H0 r])
  have B: "mat m r (broadcast_rows (rowsum H0) (nrows V0))"
    using V0 H0 by (intro matI) (simp_all add: broadcast_rows_def rowsum_def nrows_mat)
  have Q: "mat m r (elop (dot (elop V0 (dot W0 H0) dv) (T H0))
                      (broadcast_rows (rowsum H0) (nrows V0)) dv)"
    by (rule elop_mat[OF A B])
  have q': "ratio dv V0 (matmul W0 H0) = elop V0 (dot W0 H0) dv"
    by (simp only: dot_matmul[OF W0 H0 m r, symmetric] elop_ratio[OF V0 WH m, symmetric])
  have A': "matmul (ratio dv V0 (matmul W0 H0)) (transposed H0)
            = dot (elop V0 (dot W0 H0) dv) (T H0)"
    by (simp only: q' T_transposed[symmetric] dot_matmul[OF q Ht m n, symmetric])
  show ?thesis
    by (simp only: divergence_W_def A' br elop_ratio[OF A B m, symmetric]
        multiply_hadamard[OF W0 Q m, symmetric])
qed

text \<open>
  C5. One divergence update step sets \<^verbatim>\<open>H\<close> to
  \<open>H \<odot> [W\<^sup>t\<cdot>(V \<oslash> (W\<cdot>H))] \<oslash> broadcast(colsum(W), n)\<close>, computed with the old \<^verbatim>\<open>W\<close>, and then
  \<^verbatim>\<open>W\<close> to \<open>W \<odot> [(V \<oslash> (W\<cdot>H))\<cdot>H\<^sup>t] \<oslash> broadcast(rowsum(H), m)\<close>, where every \<^verbatim>\<open>H\<close> is the one
  just written: the quotient \<open>V \<oslash> (W\<cdot>H)\<close> is computed again from it, not taken from the
  first statement. Nothing else changes.
\<close>

theorem divergence_update_step:
  fixes s :: "'a::semiring_0 nmf"
  assumes "mat m n (V s)" and "mat m r (W s)" and "mat r n (H s)"
    and "0 < m" and "0 < r" and "0 < n"
  shows "divergence_update dv s =
           s\<lparr>H := divergence_H dv (V s) (W s) (H s),
             W := divergence_W dv (V s) (W s) (divergence_H dv (V s) (W s) (H s))\<rparr>"
proof -
  let ?H' = "multiply (H s) (elop (dot (T (W s)) (elop (V s) (dot (W s) (H s)) dv))
            (repmat (T (sum_axis0 (W s))) 1 (ncols (V s))) dv)"
  have h: "?H' = divergence_H dv (V s) (W s) (H s)" and hm: "mat r n ?H'"
    by (rule divergence_H_code[OF assms(1-5)])+
  have w: "multiply (W s) (elop (dot (elop (V s) (dot (W s) ?H') dv) (T ?H'))
            (repmat (T (sum_axis1 ?H')) (nrows (V s)) 1) dv) = divergence_W dv (V s) (W s) ?H'"
    by (rule divergence_W_code[OF assms(1,2) hm assms(4-6)])
  show ?thesis
    by (simp add: divergence_update_def Let_def w del: One_nat_def) (simp add: h del: One_nat_def)
qed

theorem divergence_update_step_witness:
  "divergence_update (/) ((fresh [[0, 5], [4, 0]])\<lparr>W := [[2], [1]], H := [[1, 2]]\<rparr>)
   = (fresh [[0, 5], [4, 0]])\<lparr>W := [[5 / 3], [4 / 3]], H := [[4 / 3, 5 / 3]]\<rparr>"
  using divergence_update_step[of 2 2 "(fresh [[0, 5], [4, 0]])\<lparr>W := [[2], [1]], H := [[1, 2]]\<rparr>"
      1 "(/)"]
  by (simp add: run_the_spec)

subsection \<open>The connectivity objective\<close>

text \<open>Lines 141 to 144 build the matrix of the specification, for a \<^verbatim>\<open>V\<close> with as many
  columns as \<^verbatim>\<open>H\<close>.\<close>

lemma connectivity_formula:
  assumes "ncols (V s) = ncols (H s)"
  shows "connectivity s = co_assignment (dominant (H s))"
proof -
  let ?v = "dominant (H s)"
  have len: "length ?v = ncols (H s)" by (simp add: dominant_def)
  have idx: "snd (argmax (H s)) = [?v]"
    by (simp add: argmax_def dominant_def T_transposed transposed_def comp_def)
  have m1: "repmat [?v] (ncols (V s)) 1 = replicate (length ?v) ?v"
    using assms len by (simp only: repmat_row)
  have m2: "repmat (T [?v]) 1 (ncols (V s)) = map (\<lambda>x. replicate (length ?v) x) ?v"
    using assms len by (simp only: T_row repmat_column)
  have "elop (replicate (length ?v) ?v) (map (\<lambda>x. replicate (length ?v) x) ?v) (=)
        = co_assignment ?v"
    by (auto simp: elop_def co_assignment_def intro!: nth_equalityI)
  then show ?thesis
    by (simp only: connectivity_def Let_def idx m1 m2)
qed

text \<open>
  C1. On an engine that has no connectivity state, the first call of
  \<^verbatim>\<open>conn_objective\<close> for a 3-column \<^verbatim>\<open>H\<close> with argmax indices \<open>[0, 0, 1]\<close> should
  store the connectivity matrix, set \<^verbatim>\<open>consold\<close> to its complement and return 9.
  The indices and the matrix are computed as the claim says, but line 146 takes the
  shape from \<^verbatim>\<open>self.cons\<close>, which is assigned only on line 147: the call raises
  \<^verbatim>\<open>AttributeError\<close> and stores nothing.
\<close>

theorem conn_objective_first_call_raises:
  "snd (argmax [[3, 2, 0], [1, 1, 5 :: real]]) = [[0, 0, 1]]
   \<and> connectivity ((fresh [[1, 1, 1]])\<lparr>W := [[1, 1]], H := [[3, 2, 0], [1, 1, 5]]\<rparr>)
       = [[True, True, False], [True, True, False], [False, False, True]]
   \<and> conn_objective ((fresh [[1, 1, 1]])\<lparr>W := [[1, 1]], H := [[3, 2, 0], [1, 1, 5]]\<rparr>)
       = (Inl (AttributeError ''cons''),
          (fresh [[1, 1, 1]])\<lparr>W := [[1, 1]], H := [[3, 2, 0], [1, 1, 5]]\<rparr>)"
  by (simp add: conn_objective_def connectivity_def argmax_def T_def ncols_def repmat_def elop_def
      fresh_def)




subsection \<open>The stabilizer\<close>




subsection \<open>Strategy resolution\<close>

lemma update_suffix:
  "u @ ''_update'' = ''euclidean_update'' \<longleftrightarrow> u = ''euclidean''"
  "u @ ''_update'' = ''divergence_update'' \<longleftrightarrow> u = ''divergence''"
  using append_same_eq[of u "''_update''" "''euclidean''"]
    append_same_eq[of u "''_update''" "''divergence''"] by simp_all

lemma objective_suffix:
  "u @ ''_objective'' = ''fro_objective'' \<longleftrightarrow> u = ''fro''"
  "u @ ''_objective'' = ''div_objective'' \<longleftrightarrow> u = ''div''"
  "u @ ''_objective'' = ''conn_objective'' \<longleftrightarrow> u = ''conn''"
  using append_same_eq[of u "''_objective''" "''fro''"]
    append_same_eq[of u "''_objective''" "''div''"]
    append_same_eq[of u "''_objective''" "''conn''"] by simp_all

text \<open>
  C9. When the update name is not one of \<open>euclidean\<close>, \<open>divergence\<close> or the objective
  name is not one of \<open>fro\<close>, \<open>div\<close>, \<open>conn\<close>, \<^verbatim>\<open>factorize\<close> fails with the error that
  \<^verbatim>\<open>_set_params\<close> raises while resolving the strategies (Python's \<^verbatim>\<open>AttributeError\<close>
  for the method that does not exist, the configuration error of the specification),
  and leaves the engine as it was: no run has started, so nothing was seeded, updated,
  evaluated or tracked.
\<close>

theorem unknown_strategy_fails_before_any_run:
  assumes "update_name p \<notin> {''euclidean'', ''divergence''}
         \<or> objective_name p \<notin> {''fro'', ''div'', ''conn''}"
  shows "factorize num p s =
           Some (Inl (AttributeError
                  (if update_name p \<notin> {''euclidean'', ''divergence''}
                   then update_name p @ ''_update'' else objective_name p @ ''_objective'')), s)
       \<and> fst (set_params p s) =
           Inl (AttributeError
                  (if update_name p \<notin> {''euclidean'', ''divergence''}
                   then update_name p @ ''_update'' else objective_name p @ ''_objective''))"
  using assms
  by (auto simp: factorize_def set_params_def getattr_update_def getattr_objective_def
      update_name_def objective_name_def update_suffix objective_suffix)

theorem unknown_strategy_fails_before_any_run_witness:
  "factorize exact (settings ''newton'' ''fro'' [[1]] [[1]]) (fresh [[2]])
     = Some (Inl (AttributeError ''newton_update''), fresh [[2]])
   \<and> factorize exact (settings ''euclidean'' ''kl'' [[1]] [[1]]) (fresh [[2]])
     = Some (Inl (AttributeError ''kl_objective''), fresh [[2]])"
  using unknown_strategy_fails_before_any_run[of "settings ''newton'' ''fro'' [[1]] [[1]]"
      exact "fresh [[2]]"]
    unknown_strategy_fails_before_any_run[of "settings ''euclidean'' ''kl'' [[1]] [[1]]"
      exact "fresh [[2]]"]
  by (simp add: update_name_def objective_name_def settings_def)

subsection \<open>Factor tracking in a single run\<close>

lemma loop_body_keeps:
  assumes "\<And>s. Q s \<Longrightarrow> Q (upd s)" "\<And>s. Q s \<Longrightarrow> Q (snd (obj s))"
    "\<And>s. Q s \<Longrightarrow> Q (adjustment num s)" "\<And>s. Q s \<Longrightarrow> Q (snd (record_error p s))" "Q s"
  shows "Q (snd (loop_body num p upd obj s c i))"
proof -
  let ?s1 = "adjustment num (upd s)"
  have q1: "Q ?s1" using assms by simp
  have q2: "Q (snd (obj ?s1))" using assms(2) q1 by simp
  show ?thesis
    using q1 q2 assms(4)[of "snd (obj ?s1)"] assms(4)[of ?s1]
    by (auto simp: loop_body_def Let_def split: prod.splits sum.splits)
qed

text \<open>A property of the state that every step of the loop keeps still holds when the
  loop returns.\<close>

lemma iterate_keeps:
  "iterate num p upd obj s pobj c i = Some y \<Longrightarrow>
   (\<forall>s. Q s \<longrightarrow> Q (upd s)) \<Longrightarrow> (\<forall>s. Q s \<longrightarrow> Q (snd (obj s))) \<Longrightarrow>
   (\<forall>s. Q s \<longrightarrow> Q (adjustment num s)) \<Longrightarrow> (\<forall>s. Q s \<longrightarrow> Q (snd (record_error p s))) \<Longrightarrow>
   Q s \<Longrightarrow> Q (snd y)"
proof (induction rule: iterate.raw_induct[rotated, consumes 1])
  case (1 iterate num p upd obj self pobj cobj iter y)
  show ?case
  proof (cases "is_satisfied p pobj cobj iter")
    case False
    with 1(2,7) show ?thesis by auto
  next
    case True
    have q: "Q (snd (loop_body num p upd obj self cobj iter))"
      using 1 by (intro loop_body_keeps[where Q = Q]) simp_all
    show ?thesis
    proof (cases "loop_body num p upd obj self cobj iter")
      case (Pair r s')
      show ?thesis
      proof (cases r)
        case (Inl e)
        with Pair True 1(2) q show ?thesis by auto
      next
        case (Inr ci)
        obtain c' i' where "ci = (c', i')" by (cases ci)
        with Pair Inr True 1(2) have "iterate num p upd obj s' cobj c' i' = Some y" by simp
        from 1(1)[OF this 1(3-6)] q Pair show ?thesis by simp
      qed
    qed
  qed
qed

lemma no_tracker_steps:
  "no_tracker s \<Longrightarrow> no_tracker (call_update num u s)"
  "no_tracker s \<Longrightarrow> no_tracker (snd (call_objective num ob s))"
  "no_tracker s \<Longrightarrow> no_tracker (adjustment num' s)"
  "no_tracker s \<Longrightarrow> no_tracker (snd (record_error p s))"
  "no_tracker s \<Longrightarrow> no_tracker (snd (invoke_callback p c s))"
  "no_tracker s \<Longrightarrow> no_tracker (s\<lparr>W := W0, H := H0\<rparr>)"
  by (auto simp: no_tracker_def call_update_def call_objective_def euclidean_update_def
      divergence_update_def conn_objective_def adjustment_def record_error_def
      invoke_callback_def Let_def split: update_rule.splits objective_fn.splits option.splits)

lemma no_tracker_record_factor:
  "no_tracker s \<Longrightarrow> record_factor s = (Inl (AttributeError ''_track_factor''), s)"
  by (simp add: no_tracker_def record_factor_def)

lemma no_tracker_run:
  assumes "no_tracker s"
  shows "run num p (call_update num u) (call_objective num ob) k s \<noteq> Some (Inr r, s')"
proof
  assume a: "run num p (call_update num u) (call_objective num ob) k s = Some (Inr r, s')"
  obtain W0 H0 where seed: "seed_initialize p k (V s) (rank p) = (W0, H0)"
    by (cases "seed_initialize p k (V s) (rank p)")
  let ?s0 = "s\<lparr>W := W0, H := H0\<rparr>"
  obtain r1 s1 where o: "call_objective num ob ?s0 = (r1, s1)"
    by (cases "call_objective num ob ?s0")
  have "no_tracker ?s0" using assms by (rule no_tracker_steps(6))
  then have "no_tracker (snd (call_objective num ob ?s0))" by (rule no_tracker_steps(2))
  then have n1: "no_tracker s1" using o by simp
  from a seed o obtain c1 where r1: "r1 = Inr c1"
    by (cases r1) (simp_all add: run_def run_start_def)
  from a seed o r1 obtain y where
    it: "iterate num p (call_update num u) (call_objective num ob) s1 c1 c1 0 = Some y"
    by (cases "iterate num p (call_update num u) (call_objective num ob) s1 c1 c1 0")
       (simp_all add: run_def run_start_def)
  have n2: "no_tracker (snd y)"
    using n1 by (intro iterate_keeps[where Q = no_tracker, OF it]) (simp_all add: no_tracker_steps)
  obtain r2 s2 where y: "y = (r2, s2)" by (cases y)
  from a seed o r1 it y obtain c2 i2 where r2: "r2 = Inr (c2, i2)"
    by (cases r2) (auto simp: run_def run_start_def)
  have n3: "no_tracker (snd (invoke_callback p c2 s2))"
    using n2 y by (simp add: no_tracker_steps)
  obtain r3 s3 where cb: "invoke_callback p c2 s2 = (r3, s3)"
    by (cases "invoke_callback p c2 s2")
  from a seed o r1 it y r2 cb n3 no_tracker_record_factor[of s3] show False
    by (cases r3) (simp_all add: run_def run_start_def)
qed

text \<open>
  C10. With \<^verbatim>\<open>track_factor = True\<close>, \<^verbatim>\<open>n_run = 1\<close> and error tracking off,
  \<^verbatim>\<open>_set_params\<close> constructs no tracker (\<^verbatim>\<open>self.tracker\<close> is \<^verbatim>\<open>None\<close>) while the flag
  stays on, so the branch at the end of the run calls \<^verbatim>\<open>_track_factor\<close> on \<^verbatim>\<open>None\<close> and
  raises. \<^verbatim>\<open>factorize\<close> never returns normally: it neither records a snapshot nor skips
  the recording.
\<close>

theorem track_factor_single_run_cannot_complete:
  assumes "options_track_factor p = Some True" and "n_run p = 1"
    and "options_track_error p = None \<or> options_track_error p = Some False"
  shows "(\<forall>u ob s1. set_params p s = (Inr (u, ob), s1) \<longrightarrow>
            track_factor s1 \<and> tracker s1 = None
            \<and> record_factor s1 = (Inl (AttributeError ''_track_factor''), s1))
       \<and> (\<forall>s'. factorize num p s \<noteq> Some (Inr (), s'))"
proof (intro conjI allI impI)
  fix u ob s1 assume sp: "set_params p s = (Inr (u, ob), s1)"
  then have nt: "no_tracker s1"
    using assms by (auto simp: set_params_def no_tracker_def Let_def split: sum.splits)
  then show "track_factor s1" "tracker s1 = None" by (simp_all add: no_tracker_def)
  from nt show "record_factor s1 = (Inl (AttributeError ''_track_factor''), s1)"
    by (rule no_tracker_record_factor)
next
  fix s'
  show "factorize num p s \<noteq> Some (Inr (), s')"
  proof (cases "set_params p s")
    case (Pair r s1)
    show ?thesis
    proof (cases r)
      case (Inl e)
      with Pair show ?thesis by (simp add: factorize_def)
    next
      case (Inr uo)
      obtain u ob where uo: "uo = (u, ob)" by (cases uo)
      have nt: "no_tracker s1"
        using assms Pair Inr
        by (auto simp: set_params_def no_tracker_def Let_def split: sum.splits)
      have "run num p (call_update num u) (call_objective num ob) 0 s1 \<noteq> Some (Inr r', s'')"
        for r' s'' by (rule no_tracker_run[OF nt])
      then show ?thesis using Pair Inr uo assms(2)
        by (auto simp: factorize_def split: option.splits sum.splits prod.splits)
    qed
  qed
qed

text \<open>One Euclidean update of a factorization of \<open>[[2]]\<close>: the loop ends normally and the
  recording branch raises.\<close>

theorem track_factor_single_run_cannot_complete_witness:
  "factorize exact ((settings ''euclidean'' ''fro'' [[1]] [[1]])
       \<lparr>max_iter := Some 1, options_track_factor := Some True\<rparr>) (fresh [[2]])
   = Some (Inl (AttributeError ''_track_factor''),
           (fresh [[2]])\<lparr>W := [[1]], H := [[2]], track_factor := True\<rparr>)"
  using track_factor_single_run_cannot_complete[of "(settings ''euclidean'' ''fro'' [[1]] [[1]])
       \<lparr>max_iter := Some 1, options_track_factor := Some True\<rparr>" "fresh [[2]]" exact]
  by (simp add: run_the_code iterate.simps)

end
